theory Spec2Isabelle
  imports Main "HOL-Library.Word"
begin

unbundle bit_operations_syntax

section \<open>HDF5-UDF: the C++ backend and the sandbox library\<close>

text \<open>
  A shallow embedding of \<^verbatim>\<open>cpp_backend.cpp\<close> (compile, compressBuffer,
  decompressBuffer, run, udfDatasetNames) and of \<^verbatim>\<open>sandbox_library.cpp\<close>
  (files_allowed, syscall_intercept, syscall_intercept_init).

  Conventions of the embedding:
  \<^item> a buffer is a list of bytes; \<^verbatim>\<open>size_t\<close> and \<^verbatim>\<open>uint64_t\<close> are 64-bit words where
    the code does arithmetic on them (the target is x86-64 Linux: seccomp and
    syscall_intercept), and a \<^verbatim>\<open>memcpy\<close> of a \<^verbatim>\<open>uint64_t\<close> stores it least significant
    byte first;
  \<^item> a memory access outside its buffer is undefined behaviour in C++; the model makes it
    the value \<open>OutOfBounds\<close>;
  \<^item> everything the code asks of the operating system or of a library that is not among
    the sources (miniz, fork, execvp, stat, glob, dlopen, the Backend helpers) is read
    from a record \<open>os_env\<close> of answers, one field per call;
  \<^item> \<^verbatim>\<open>fork\<close> returns in two processes; a function that forks is modelled in the process
    that called it, by the value \<^verbatim>\<open>fork\<close> returned there;
  \<^item> a loop that polls the operating system consumes a finite script of answers, one per
    call; when the script ends before the loop does, the function has not returned, which
    is the value \<open>None\<close>;
  \<^item> the diagnostics printed with \<^verbatim>\<open>fprintf(stderr, ...)\<close> and memory allocation
    failure are not modelled.
\<close>

subsection \<open>Bytes, sizes and memory\<close>

type_synonym byte = "8 word"
type_synonym bytes = "byte list"
type_synonym size_t = "64 word"
type_synonym addr = nat

datatype fault = OutOfBounds

text \<open>\<^verbatim>\<open>memcpy(&x, &buf[off], n)\<close>: read \<open>n\<close> bytes of \<open>buf\<close> at offset \<open>off\<close>.\<close>

definition memcpy_from :: "bytes \<Rightarrow> nat \<Rightarrow> nat \<Rightarrow> fault + bytes" where
  "memcpy_from buf off n =
     (if off + n \<le> length buf then Inr (take n (drop off buf)) else Inl OutOfBounds)"

text \<open>\<^verbatim>\<open>memcpy(&buf[off], src, n)\<close> with \<open>n = length src\<close>: overwrite \<open>buf\<close> at offset \<open>off\<close>.\<close>

definition memcpy_to :: "bytes \<Rightarrow> nat \<Rightarrow> bytes \<Rightarrow> fault + bytes" where
  "memcpy_to buf off src =
     (if off + length src \<le> length buf
      then Inr (take off buf @ src @ drop (off + length src) buf)
      else Inl OutOfBounds)"

text \<open>\<^verbatim>\<open>std::string::resize(n)\<close>: truncate, or pad with zero bytes.\<close>

definition resize :: "bytes \<Rightarrow> nat \<Rightarrow> bytes" where
  "resize buf n = take n buf @ replicate (n - length buf) 0"

text \<open>
  A library call that is handed a destination buffer and reports the bytes it stored
  there: the buffer keeps its size and holds those bytes at its start.
\<close>

definition stored_in :: "bytes \<Rightarrow> bytes \<Rightarrow> bytes" where
  "stored_in buf written = take (length buf) (written @ drop (length written) buf)"

text \<open>The eight bytes of a \<^verbatim>\<open>uint64_t\<close> in memory, and the value of eight bytes read back.\<close>

definition store_u64 :: "64 word \<Rightarrow> bytes" where
  "store_u64 w =
     [ucast w, ucast (drop_bit 8 w), ucast (drop_bit 16 w), ucast (drop_bit 24 w),
      ucast (drop_bit 32 w), ucast (drop_bit 40 w), ucast (drop_bit 48 w),
      ucast (drop_bit 56 w)]"

fun load_u64 :: "bytes \<Rightarrow> 64 word" where
  "load_u64 [] = 0"
| "load_u64 (b # bs) = ucast b OR push_bit 8 (load_u64 bs)"

text \<open>Auxiliary (proofs only): the first \<open>n\<close> bytes of a word, by recursion.\<close>

fun store_le :: "nat \<Rightarrow> 64 word \<Rightarrow> bytes" where
  "store_le 0 w = []"
| "store_le (Suc n) w = ucast w # store_le n (drop_bit 8 w)"

subsection \<open>The codec (miniz)\<close>

text \<open>
  \<^verbatim>\<open>miniz.h\<close> is not among the sources and the specification treats the compression
  primitive as an opaque byte codec, so its three entry points are parameters.
  \<open>mz_compress c cap src\<close> is the call with a destination of capacity \<open>cap\<close>: the status
  and the bytes stored at the destination (their number is what the call writes back
  through its length pointer); \<open>mz_uncompress\<close> likewise.
\<close>

record codec =
  mz_compressBound :: "nat \<Rightarrow> nat"
  mz_compress :: "nat \<Rightarrow> bytes \<Rightarrow> int \<times> bytes"
  mz_uncompress :: "nat \<Rightarrow> bytes \<Rightarrow> int \<times> bytes"

definition Z_OK :: int where
  "Z_OK = 0"

definition Z_BUF_ERROR :: int where
  "Z_BUF_ERROR = - 5"

text \<open>
  \<^verbatim>\<open>CppBackend::compressBuffer\<close>. \<open>Inr []\<close> is the empty string returned when the codec
  does not report \<^verbatim>\<open>Z_OK\<close>.
\<close>

definition compressBuffer :: "codec \<Rightarrow> bytes \<Rightarrow> fault + bytes" where
  "compressBuffer c data =
     (let usize = length data;
          bound = mz_compressBound c usize;
          compressed = resize [] bound;
          (status, written) = mz_compress c bound data;
          compressed = stored_in compressed written;
          csize = length written
      in if status \<noteq> Z_OK then Inr []
         else (case memcpy_to compressed csize (store_u64 (word_of_nat usize)) of
                 Inl f \<Rightarrow> Inl f
               | Inr compressed \<Rightarrow> Inr (resize compressed (csize + 8))))"

text \<open>
  \<^verbatim>\<open>CppBackend::decompressBuffer\<close>. The offset \<^verbatim>\<open>csize - sizeof(uint64_t)\<close> and the
  assignment \<^verbatim>\<open>csize -= sizeof(uint64_t)\<close> are \<^verbatim>\<open>size_t\<close> arithmetic and wrap around.
  The string returned has the size read from the trailer, whatever length the codec
  reports.
\<close>

definition decompressBuffer :: "codec \<Rightarrow> bytes \<Rightarrow> fault + bytes" where
  "decompressBuffer c data =
     (let csize = (word_of_nat (length data) :: size_t) in
      case memcpy_from data (unat (csize - 8)) 8 of
        Inl f \<Rightarrow> Inl f
      | Inr trailer \<Rightarrow>
          (let usize = unat (load_u64 trailer);
               csize = unat (csize - 8);
               uncompressed = resize [] usize;
               (status, written) = mz_uncompress c usize (take csize data)
           in if status \<noteq> Z_OK then Inr [] else Inr (stored_in uncompressed written)))"

text \<open>
  A sample codec, used only to exhibit concrete inputs that satisfy the hypotheses made
  on the codec: it stores its input unchanged when the destination is large enough.
\<close>

definition stored_codec :: codec where
  "stored_codec =
     \<lparr> mz_compressBound = (\<lambda>n. n + 128),
       mz_compress = (\<lambda>cap src. if length src \<le> cap then (Z_OK, src) else (Z_BUF_ERROR, [])),
       mz_uncompress = (\<lambda>cap src. if length src \<le> cap then (Z_OK, src) else (Z_BUF_ERROR, [])) \<rparr>"

subsection \<open>Processes, files and the environment\<close>

text \<open>
  What a call of \<^verbatim>\<open>compile\<close>, \<^verbatim>\<open>run\<close> or \<^verbatim>\<open>udfDatasetNames\<close> comes to in the process
  that made it: it returns a value; or \<^verbatim>\<open>execvp\<close> replaced the process image (with the
  command line given); or the process left through \<^verbatim>\<open>_exit\<close>, which runs no handler
  registered with \<^verbatim>\<open>atexit\<close>; or it died inside the user-defined function (a crash, or
  a kill by seccomp); or it made an out-of-bounds memory access; or a C++ exception
  left the function.
\<close>

datatype cxx_exception = OutOfRange

datatype 'a outcome =
    Returned 'a
  | Replaced "string list"
  | LowLevelExit nat
  | DiedInUdf
  | Undefined fault
  | Thrown cxx_exception

text \<open>The effects on the file system and on child processes, in the order they happen.\<close>

datatype event =
    Chmod string nat
  | Unlink string
  | Wait

text \<open>
  The state a call works on: the buffers it is handed pointers to (by address) and the
  events so far.
\<close>

record world =
  mem :: "addr \<Rightarrow> bytes"
  trace :: "event list"

definition emit :: "event \<Rightarrow> world \<Rightarrow> world" where
  "emit e w = w\<lparr>trace := trace w @ [e]\<rparr>"

text \<open>
  Modelled from the spec: \<^verbatim>\<open>dataset.h\<close> (\<^verbatim>\<open>DatasetInfo\<close>) is not among the sources. A
  descriptor has a name, a data type tag, the dimension extents, an element storage
  size in bytes and a pointer to the element values; \<open>grid_size = product(dimensions)\<close>.
  The members \<^verbatim>\<open>name\<close>, \<^verbatim>\<open>data\<close> and the data type are the fields \<open>dataset_name\<close>,
  \<open>dataset_data\<close> and \<open>datatype_tag\<close>.
\<close>

record DatasetInfo =
  dataset_name :: string
  datatype_tag :: string
  dimensions :: "64 word list"
  storage_size :: size_t
  dataset_data :: addr

definition getGridSize :: "DatasetInfo \<Rightarrow> size_t" where
  "getGridSize d = foldl (\<lambda>acc n. acc * n) 1 (dimensions d)"

definition getStorageSize :: "DatasetInfo \<Rightarrow> size_t" where
  "getStorageSize d = storage_size d"

definition getDatatype :: "DatasetInfo \<Rightarrow> string" where
  "getDatatype d = datatype_tag d"

text \<open>The four runtime tables of a loaded shared object.\<close>

record udf_tables =
  hdf5_udf_data :: "addr list"
  hdf5_udf_names :: "string list"
  hdf5_udf_types :: "string list"
  hdf5_udf_dims :: "64 word list list"

text \<open>
  What a non-blocking \<^verbatim>\<open>read(pipefd[0], buf, sizeof(buf))\<close> of the parent of
  \<^verbatim>\<open>udfDatasetNames\<close> comes to: \<open>n\<close> bytes stored in \<open>buf\<close> (\<open>n = 0\<close>, the empty string, is
  the end of the file); or \<open>n < 0\<close> with \<^verbatim>\<open>errno == EWOULDBLOCK\<close>, together with the value the
  call \<^verbatim>\<open>waitpid(pid, NULL, WNOHANG)\<close> that follows it returns; or \<open>n < 0\<close> with another
  \<^verbatim>\<open>errno\<close>.
\<close>

datatype read_answer =
    ReadData string
  | ReadWouldBlock int
  | ReadError

text \<open>
  The answers of the environment. None of the functions behind them is among the
  sources:
  \<^item> \<open>miniz\<close>: the codec;
  \<^item> \<open>assembleUDF\<close>, \<open>writeToDisk\<close>: \<^verbatim>\<open>Backend::assembleUDF\<close> and
    \<^verbatim>\<open>Backend::writeToDisk\<close>, which return a path, or the empty string on failure;
  \<^item> \<open>fork_result\<close>: what \<^verbatim>\<open>fork()\<close> returns in this process (0 in the child, the
    child's pid in the parent, negative on failure);
  \<^item> \<open>execvp_fails\<close>: whether \<^verbatim>\<open>execvp\<close> returns (it only returns on failure);
  \<^item> \<open>so_output\<close>: the file at a path once the compiler child has been waited for
    (\<open>None\<close> when \<^verbatim>\<open>stat\<close> fails);
  \<^item> \<open>wait_status\<close>: the exit status of the child as \<^verbatim>\<open>wait4\<close> or \<^verbatim>\<open>waitpid\<close> reports it;
    \<^verbatim>\<open>compile\<close> stores it in a variable it never reads and \<^verbatim>\<open>run\<close> passes \<^verbatim>\<open>NULL\<close> for
    it, so no definition below mentions it;
  \<^item> \<open>mm_create\<close>, \<open>mm_addr\<close>, \<open>mm_after_wait\<close>: \<^verbatim>\<open>AnonymousMemoryMap::create\<close> for a
    size, the address of the region, and the bytes the region holds when \<^verbatim>\<open>waitpid\<close>
    returns in the parent;
  \<^item> \<open>shlib_open\<close>, \<open>loadsym\<close>, \<open>so_tables\<close>: \<^verbatim>\<open>SharedLibraryManager::open\<close>, whether
    \<^verbatim>\<open>loadsym\<close> returns a non-null pointer for a symbol, and the tables of the shared
    object as loaded;
  \<^item> \<open>sandbox_enabled\<close>, \<open>sandbox_init\<close>: whether the build defines
    \<^verbatim>\<open>ENABLE_SANDBOX\<close>, and \<^verbatim>\<open>Sandbox::init\<close>;
  \<^item> \<open>udf_returns\<close>: whether the call of the entry point returns;
  \<^item> \<open>pipe_ok\<close>, \<open>pipe_reads\<close>: whether \<^verbatim>\<open>pipe\<close> succeeds, and the answers to the
    parent's successive \<^verbatim>\<open>read\<close> calls on the pipe (see \<open>read_answer\<close>).
\<close>

record os_env =
  miniz :: codec
  assembleUDF :: "string \<Rightarrow> string \<Rightarrow> string \<Rightarrow> string \<Rightarrow> string"
  writeToDisk :: "bytes \<Rightarrow> string \<Rightarrow> string"
  fork_result :: int
  execvp_fails :: bool
  so_output :: "string \<Rightarrow> bytes option"
  wait_status :: int
  mm_create :: "nat \<Rightarrow> bool"
  mm_addr :: addr
  mm_after_wait :: bytes
  shlib_open :: "string \<Rightarrow> bool"
  loadsym :: "string \<Rightarrow> bool"
  so_tables :: udf_tables
  sandbox_enabled :: bool
  sandbox_init :: "string \<Rightarrow> bool"
  udf_returns :: "udf_tables \<Rightarrow> bool"
  pipe_ok :: bool
  pipe_reads :: "read_answer list"

subsection \<open>compile\<close>

definition extension :: string where
  "extension = ''.cpp''"

text \<open>\<^verbatim>\<open>CppBackend::compile\<close>. \<open>Returned []\<close> is the empty string.\<close>

definition compile :: "os_env \<Rightarrow> string \<Rightarrow> string \<Rightarrow> world \<Rightarrow> bytes outcome \<times> world" where
  "compile env udf_file template_file w =
     (let placeholder = ''// user_callback_placeholder'';
          cpp_file = assembleUDF env udf_file template_file placeholder extension
      in if length cpp_file = 0 then (Returned [], w)
         else
           (let output = udf_file @ ''.so'' in
            if fork_result env = 0 then
              (if execvp_fails env then (Returned [], w)
               else (Replaced [''g++'', ''-rdynamic'', ''-shared'', ''-fPIC'', ''-flto'',
                       ''-Os'', ''-C'', ''-o'', output, cpp_file], w))
            else if fork_result env > 0 then
              (let w = emit Wait w;
                   (bytecode, w) =
                     (case so_output env output of
                        Some buffer \<Rightarrow> (buffer, emit (Unlink output) w)
                      | None \<Rightarrow> ([], w));
                   w = emit (Unlink cpp_file) w
               in case compressBuffer (miniz env) bytecode of
                    Inl f \<Rightarrow> (Undefined f, w)
                  | Inr blob \<Rightarrow> (Returned blob, w))
            else (Returned [], w)))"

subsection \<open>run\<close>

text \<open>The loop of the child that appends one entry per dataset to each table.\<close>

fun populate :: "DatasetInfo list \<Rightarrow> udf_tables \<Rightarrow> udf_tables" where
  "populate [] t = t"
| "populate (d # ds) t =
     populate ds
       (t\<lparr>hdf5_udf_data := hdf5_udf_data t @ [dataset_data d],
          hdf5_udf_names := hdf5_udf_names t @ [dataset_name d],
          hdf5_udf_types := hdf5_udf_types t @ [getDatatype d],
          hdf5_udf_dims := hdf5_udf_dims t @ [dimensions d]\<rparr>)"

text \<open>The branch \<^verbatim>\<open>pid == 0\<close> of \<^verbatim>\<open>CppBackend::run\<close>.\<close>

definition run_child ::
  "os_env \<Rightarrow> string \<Rightarrow> DatasetInfo list \<Rightarrow> DatasetInfo \<Rightarrow> string \<Rightarrow> world
     \<Rightarrow> bool outcome \<times> world" where
  "run_child env filterpath input_datasets output_dataset so_file w =
     (if shlib_open env so_file = False then (Returned False, w)
      else if \<not> loadsym env ''dynamic_dataset'' \<or> \<not> loadsym env ''hdf5_udf_data''
              \<or> \<not> loadsym env ''hdf5_udf_names'' \<or> \<not> loadsym env ''hdf5_udf_types''
              \<or> \<not> loadsym env ''hdf5_udf_dims''
      then (Returned False, w)
      else
        (let output_dataset_copy = output_dataset\<lparr>dataset_data := mm_addr env\<rparr>;
             dataset_info = [output_dataset_copy] @ input_datasets;
             tables = populate dataset_info (so_tables env);
             ready = (if sandbox_enabled env then sandbox_init env filterpath else True)
         in if ready
            then (if udf_returns env tables then (LowLevelExit 0, w) else (DiedInUdf, w))
            else (LowLevelExit 1, w)))"

text \<open>
  \<^verbatim>\<open>CppBackend::run\<close>. The parent's \<^verbatim>\<open>memcpy\<close> reads \<open>room_size\<close> bytes of the shared
  region and overwrites as many at the start of the buffer \<open>output_dataset.data\<close>
  points to. The mode \<^verbatim>\<open>0755\<close> is 493.
\<close>

definition run ::
  "os_env \<Rightarrow> string \<Rightarrow> DatasetInfo list \<Rightarrow> DatasetInfo \<Rightarrow> string \<Rightarrow> bytes \<Rightarrow> world
     \<Rightarrow> bool outcome \<times> world" where
  "run env filterpath input_datasets output_dataset output_cast_datatype sharedlib_data w =
     (case decompressBuffer (miniz env) sharedlib_data of
        Inl f \<Rightarrow> (Undefined f, w)
      | Inr decompressed_shlib \<Rightarrow>
          if length decompressed_shlib = 0 then (Returned False, w)
          else
            (let ext = extension;
                 so_file = writeToDisk env decompressed_shlib ext
             in if length so_file = 0 then (Returned False, w)
                else
                  (let w = emit (Chmod so_file 493) w;
                       room_size = getGridSize output_dataset * getStorageSize output_dataset
                   in if \<not> mm_create env (unat room_size)
                      then (Returned False, emit (Unlink so_file) w)
                      else if fork_result env = 0
                      then run_child env filterpath input_datasets output_dataset so_file w
                      else if fork_result env > 0
                      then
                        (let w = emit Wait w in
                         case memcpy_from (mm_after_wait env) 0 (unat room_size) of
                           Inl f \<Rightarrow> (Undefined f, w)
                         | Inr copied \<Rightarrow>
                             (case memcpy_to (mem w (dataset_data output_dataset)) 0 copied of
                                Inl f \<Rightarrow> (Undefined f, w)
                              | Inr buffer \<Rightarrow>
                                  (Returned True,
                                   emit (Unlink so_file)
                                     (w\<lparr>mem := (mem w)(dataset_data output_dataset := buffer)\<rparr>))))
                      else (Returned True, emit (Unlink so_file) w))))"

subsection \<open>udfDatasetNames\<close>

definition npos :: nat where
  "npos = 2 ^ 64 - 1"

definition dquote :: char where
  "dquote = CHR 0x22"

definition newline :: char where
  "newline = CHR 0x0A"

definition getData_token :: string where
  "getData_token = ''lib.getData''"

text \<open>\<^verbatim>\<open>std::string::find(needle)\<close>: the first index where \<open>needle\<close> starts, or \<open>npos\<close>.\<close>

fun find_at :: "string \<Rightarrow> string \<Rightarrow> nat \<Rightarrow> nat" where
  "find_at needle [] i = (if needle = [] then i else npos)"
| "find_at needle (c # cs) i =
     (if take (length needle) (c # cs) = needle then i else find_at needle cs (Suc i))"

definition str_find :: "string \<Rightarrow> string \<Rightarrow> nat" where
  "str_find s needle = find_at needle s 0"

text \<open>\<^verbatim>\<open>std::string::find_first_of(chars)\<close>: the first index of one of \<open>chars\<close>, or \<open>npos\<close>.\<close>

fun find_first_of_at :: "string \<Rightarrow> string \<Rightarrow> nat \<Rightarrow> nat" where
  "find_first_of_at chars [] i = npos"
| "find_first_of_at chars (c # cs) i =
     (if c \<in> set chars then i else find_first_of_at chars cs (Suc i))"

definition find_first_of :: "string \<Rightarrow> string \<Rightarrow> nat" where
  "find_first_of s chars = find_first_of_at chars s 0"

text \<open>
  \<^verbatim>\<open>std::string::substr(pos, len)\<close>: throws \<^verbatim>\<open>std::out_of_range\<close> when \<open>pos\<close> is past the
  end; \<^verbatim>\<open>substr(pos)\<close> is \<open>substr s pos npos\<close>.
\<close>

definition substr :: "string \<Rightarrow> nat \<Rightarrow> nat \<Rightarrow> cxx_exception + string" where
  "substr s pos len = (if pos > length s then Inl OutOfRange else Inr (take len (drop pos s)))"

text \<open>
  \<^verbatim>\<open>std::getline(iss, line)\<close> on the rest of the stream: it fails when nothing is left,
  else it yields the characters before the next newline and drops that newline.
\<close>

definition getline :: "string \<Rightarrow> (string \<times> string) option" where
  "getline iss =
     (if iss = [] then None
      else Some (takeWhile (\<lambda>c. c \<noteq> newline) iss, drop 1 (dropWhile (\<lambda>c. c \<noteq> newline) iss)))"

text \<open>
  The body of the loop over the lines. The sums \<^verbatim>\<open>n+start+1\<close> and \<^verbatim>\<open>start+1\<close> are
  \<^verbatim>\<open>size_t\<close> arithmetic, where \<open>start\<close> may be \<open>npos\<close>.
\<close>

definition scan_line :: "string \<Rightarrow> string list \<Rightarrow> cxx_exception + string list" where
  "scan_line line output =
     (let n = str_find line getData_token in
      if n \<noteq> npos then
        (case substr line n npos of
           Inl e \<Rightarrow> Inl e
         | Inr from_n \<Rightarrow>
             (let start = find_first_of from_n [dquote] in
              case substr line ((n + start + 1) mod 2 ^ 64) npos of
                Inl e \<Rightarrow> Inl e
              | Inr after_start \<Rightarrow>
                  (let end' = find_first_of after_start [dquote] in
                   case substr line n npos of
                     Inl e \<Rightarrow> Inl e
                   | Inr from_n \<Rightarrow>
                       (case substr from_n ((start + 1) mod 2 ^ 64) end' of
                          Inl e \<Rightarrow> Inl e
                        | Inr name \<Rightarrow> Inr (output @ [name])))))
      else Inr output)"

function scan_loop :: "string \<Rightarrow> string list \<Rightarrow> cxx_exception + string list" where
  "scan_loop iss output =
     (case getline iss of
        None \<Rightarrow> Inr output
      | Some (line, rest) \<Rightarrow>
          (case scan_line line output of
             Inl e \<Rightarrow> Inl e
           | Inr output \<Rightarrow> scan_loop rest output))"
  by pat_completeness auto
termination
proof (relation "measure (\<lambda>(iss, names). length iss)")
  show "wf (measure (\<lambda>(iss, names). length iss))"
    by simp
next
  fix iss :: string and names names' :: "string list" and x :: "string \<times> string" and line rest
  assume g: "getline iss = Some x" and x: "(line, rest) = x"
  from g x have ne: "0 < length iss"
    and r: "rest = drop 1 (dropWhile (\<lambda>c. c \<noteq> newline) iss)"
    by (auto simp: getline_def split: if_splits)
  have "length (dropWhile (\<lambda>c. c \<noteq> newline) iss) \<le> length iss"
    by (rule length_dropWhile_le)
  moreover have "length rest = length (dropWhile (\<lambda>c. c \<noteq> newline) iss) - 1"
    unfolding r by (rule length_drop)
  ultimately have "length rest < length iss"
    using ne by linarith
  then show "((rest, names'), (iss, names)) \<in> measure (\<lambda>(iss, names). length iss)"
    by simp
qed

text \<open>
  The parent's read loop: \<^verbatim>\<open>while (true)\<close> around a non-blocking \<^verbatim>\<open>read\<close>. On
  \<^verbatim>\<open>EWOULDBLOCK\<close> it leaves the loop when \<^verbatim>\<open>waitpid\<close> returns the child's pid, without
  another \<^verbatim>\<open>read\<close>, and goes round again otherwise; on any other \<open>n \<le> 0\<close> it leaves the
  loop; else it appends the \<open>n\<close> bytes to \<open>input\<close>. The loop has no bound of its own:
  it consumes the script of answers, and \<open>None\<close> is a loop still running when the script
  ends.
\<close>

fun read_loop :: "int \<Rightarrow> read_answer list \<Rightarrow> string \<Rightarrow> string option" where
  "read_loop pid [] input = None"
| "read_loop pid (ReadWouldBlock waited # answers) input =
     (if waited = pid then Some input else read_loop pid answers input)"
| "read_loop pid (ReadError # answers) input = Some input"
| "read_loop pid (ReadData buf # answers) input =
     (if length buf \<le> 0 then Some input else read_loop pid answers (input @ buf))"

text \<open>
  \<^verbatim>\<open>CppBackend::udfDatasetNames\<close>; \<open>None\<close> when the read loop has not ended. The calls
  of \<^verbatim>\<open>dup2\<close>, \<^verbatim>\<open>fcntl\<close> and \<^verbatim>\<open>close\<close> are not modelled.
\<close>

definition udfDatasetNames :: "os_env \<Rightarrow> string \<Rightarrow> string list outcome option" where
  "udfDatasetNames env udf_file =
     (if \<not> pipe_ok env then Some (Returned [])
      else if fork_result env = 0 then
        (if execvp_fails env then Some (Returned [])
         else Some (Replaced [''g++'', ''-fpreprocessed'', ''-dD'', ''-E'', udf_file]))
      else if fork_result env > 0 then
        (case read_loop (fork_result env) (pipe_reads env) [] of
           None \<Rightarrow> None
         | Some input \<Rightarrow>
             (case scan_loop input [] of
                Inl e \<Rightarrow> Some (Thrown e)
              | Inr output \<Rightarrow> Some (Returned output)))
      else Some (Returned []))"

text \<open>
  The scanner as the specification words it, for comparison: the lines of a text (the
  preprocessor's output); the places where the token \<^verbatim>\<open>lib.getData\<close> occurs in a
  line; the first double-quoted string literal of a text; and, for every occurrence,
  the literal that follows it on its line.
\<close>

function lines_of :: "string \<Rightarrow> string list" where
  "lines_of s =
     (if s = [] then []
      else takeWhile (\<lambda>c. c \<noteq> newline) s
             # lines_of (drop 1 (dropWhile (\<lambda>c. c \<noteq> newline) s)))"
  by pat_completeness auto
termination
proof (relation "measure length")
  show "wf (measure length)"
    by simp
next
  fix s :: string
  assume "s \<noteq> []"
  then have ne: "0 < length s"
    by simp
  have "length (dropWhile (\<lambda>c. c \<noteq> newline) s) \<le> length s"
    by (rule length_dropWhile_le)
  moreover have "length (drop 1 (dropWhile (\<lambda>c. c \<noteq> newline) s))
                   = length (dropWhile (\<lambda>c. c \<noteq> newline) s) - 1"
    by (rule length_drop)
  ultimately have "length (drop 1 (dropWhile (\<lambda>c. c \<noteq> newline) s)) < length s"
    using ne by linarith
  then show "(drop 1 (dropWhile (\<lambda>c. c \<noteq> newline) s), s) \<in> measure length"
    by simp
qed

definition occurrences :: "string \<Rightarrow> nat list" where
  "occurrences line =
     filter (\<lambda>i. take (length getData_token) (drop i line) = getData_token)
       [0 ..< length line]"

definition first_literal :: "string \<Rightarrow> string option" where
  "first_literal s =
     (case dropWhile (\<lambda>c. c \<noteq> dquote) s of
        [] \<Rightarrow> None
      | q # body \<Rightarrow>
          if dquote \<in> set body then Some (takeWhile (\<lambda>c. c \<noteq> dquote) body) else None)"

definition literal_after :: "string \<Rightarrow> nat \<Rightarrow> string list" where
  "literal_after line i =
     (case first_literal (drop i line) of None \<Rightarrow> [] | Some lit \<Rightarrow> [lit])"

definition spec_scan :: "string \<Rightarrow> string list" where
  "spec_scan input =
     concat (map (\<lambda>line. concat (map (literal_after line) (occurrences line)))
               (lines_of input))"

text \<open>
  The reading that looks at the first occurrence of a line only: a name is right for a
  line when, if the token occurs in the line and a double-quoted string literal follows
  its first occurrence, the name is that literal.
\<close>

definition entry_ok :: "string \<Rightarrow> string \<Rightarrow> bool" where
  "entry_ok line name =
     (case occurrences line of
        [] \<Rightarrow> True
      | i # _ \<Rightarrow>
          (case first_literal (drop i line) of
             None \<Rightarrow> True
           | Some lit \<Rightarrow> name = lit))"

definition token_lines :: "string \<Rightarrow> string list" where
  "token_lines input = filter (\<lambda>line. occurrences line \<noteq> []) (lines_of input)"

text \<open>
  The answers that end the read loop of a parent whose child is \<open>pid\<close>, and the bytes an
  answer adds to \<open>input\<close>.
\<close>

definition ends_loop :: "int \<Rightarrow> read_answer \<Rightarrow> bool" where
  "ends_loop pid answer =
     (case answer of
        ReadData buf \<Rightarrow> buf = []
      | ReadWouldBlock waited \<Rightarrow> waited = pid
      | ReadError \<Rightarrow> True)"

definition bytes_of :: "read_answer \<Rightarrow> string" where
  "bytes_of answer = (case answer of ReadData buf \<Rightarrow> buf | _ \<Rightarrow> [])"

subsection \<open>The sandbox library\<close>

text \<open>
  The system call numbers and \<^verbatim>\<open>EPERM\<close> come from the platform's headers, which are not
  among the sources; these are the values of x86-64 Linux, the platform the
  syscall_intercept library supports.
\<close>

definition SYS_open :: int where
  "SYS_open = 2"

definition SYS_stat :: int where
  "SYS_stat = 4"

definition SYS_fstat :: int where
  "SYS_fstat = 5"

definition SYS_lstat :: int where
  "SYS_lstat = 6"

definition SYS_openat :: int where
  "SYS_openat = 257"

definition EPERM :: int where
  "EPERM = 1"

text \<open>
  The library's state: the static vector \<^verbatim>\<open>files_allowed\<close>, and whether the hook of the
  intercepting library points to \<^verbatim>\<open>syscall_intercept\<close>.
\<close>

record sandbox_library =
  files_allowed :: "string list"
  intercept_hook_point :: bool

text \<open>The state as the static initialisers leave it.\<close>

definition static_init :: sandbox_library where
  "static_init = \<lparr> files_allowed = [''/etc/resolv.conf''], intercept_hook_point = False \<rparr>"

text \<open>
  The lambda \<^verbatim>\<open>test_file_ok\<close>: the loop over \<^verbatim>\<open>files_allowed\<close> comparing each entry with
  the path, then the result. \<open>cstring\<close> reads the NUL-terminated string at an address;
  the result is the value returned and the value of \<^verbatim>\<open>*ret\<close> afterwards.
\<close>

fun path_listed :: "string list \<Rightarrow> string \<Rightarrow> bool" where
  "path_listed [] path = False"
| "path_listed (p # ps) path = (if p = path then True else path_listed ps path)"

definition test_file_ok ::
  "sandbox_library \<Rightarrow> (int \<Rightarrow> string) \<Rightarrow> int \<Rightarrow> int \<Rightarrow> int \<times> int" where
  "test_file_ok lib cstring arg ret =
     (let path = cstring arg in
      if path_listed (files_allowed lib) path then (1, ret) else (0, - EPERM))"

text \<open>
  \<^verbatim>\<open>syscall_intercept\<close>. A non-zero value returned tells the intercepting library to
  execute the original system call; zero tells it that the call was taken over, and
  \<^verbatim>\<open>*ret\<close> is then what the caller of the system call gets.
\<close>

definition syscall_intercept ::
  "sandbox_library \<Rightarrow> (int \<Rightarrow> string) \<Rightarrow> int \<Rightarrow> int \<Rightarrow> int \<Rightarrow> int \<Rightarrow> int \<Rightarrow> int \<Rightarrow> int
     \<Rightarrow> int \<Rightarrow> int \<times> int" where
  "syscall_intercept lib cstring syscall_nr arg0 arg1 arg2 arg3 arg4 arg5 ret =
     (if syscall_nr = SYS_stat \<or> syscall_nr = SYS_lstat \<or> syscall_nr = SYS_open
      then test_file_ok lib cstring arg0 ret
      else if syscall_nr = SYS_openat
      then test_file_ok lib cstring arg1 ret
      else (1, ret))"

text \<open>
  The loop of \<^verbatim>\<open>syscall_intercept_init\<close> over the copy \<open>files\<close>, appending to the cleared
  \<^verbatim>\<open>files_allowed\<close>. \<open>glob\<close> is the C library's \<^verbatim>\<open>glob(path, GLOB_NOSORT, NULL, &globbuf)\<close>:
  the value returned and the paths found, in the order found.
\<close>

fun resolve_wildcards ::
  "(string \<Rightarrow> int \<times> string list) \<Rightarrow> string list \<Rightarrow> string list \<Rightarrow> string list" where
  "resolve_wildcards glob [] allowed = allowed"
| "resolve_wildcards glob (path # files) allowed =
     (if str_find path ''*'' = npos
      then resolve_wildcards glob files (allowed @ [path])
      else
        (case glob path of
           (rc, gl_pathv) \<Rightarrow>
             if rc \<noteq> 0 then resolve_wildcards glob files allowed
             else resolve_wildcards glob files (allowed @ gl_pathv)))"

definition syscall_intercept_init ::
  "(string \<Rightarrow> int \<times> string list) \<Rightarrow> sandbox_library \<Rightarrow> sandbox_library" where
  "syscall_intercept_init glob lib =
     (let files = files_allowed lib;
          lib = lib\<lparr>files_allowed := []\<rparr>;
          lib = lib\<lparr>files_allowed := resolve_wildcards glob files (files_allowed lib)\<rparr>
      in lib\<lparr>intercept_hook_point := True\<rparr>)"

text \<open>
  Loading the library: the function carries \<^verbatim>\<open>__attribute__((constructor))\<close>, so the
  loader calls it once, on the statically initialised state.
\<close>

definition library_load :: "(string \<Rightarrow> int \<times> string list) \<Rightarrow> sandbox_library" where
  "library_load glob = syscall_intercept_init glob static_init"

text \<open>
  The expansion as the specification words it, for comparison: an entry containing a
  \<open>*\<close> is replaced by what globbing finds for it (nothing when \<^verbatim>\<open>glob\<close> reports a
  failure or no match), a literal entry is kept.
\<close>

definition expand_entry :: "(string \<Rightarrow> int \<times> string list) \<Rightarrow> string \<Rightarrow> string list" where
  "expand_entry glob entry =
     (if CHR ''*'' \<in> set entry
      then (if fst (glob entry) = 0 then snd (glob entry) else [])
      else [entry])"

definition expand :: "(string \<Rightarrow> int \<times> string list) \<Rightarrow> string list \<Rightarrow> string list" where
  "expand glob entries = concat (map (expand_entry glob) entries)"

subsection \<open>Sample inputs\<close>

text \<open>
  One environment, output descriptor, state and blob, used only to exhibit concrete
  inputs that satisfy the hypotheses of the theorems below: the compiler leaves no
  shared object, every other call succeeds, the output dataset has two elements of four
  bytes, and the caller's buffer at address 0 holds nine bytes.
\<close>

definition sample_env :: os_env where
  "sample_env =
     \<lparr> miniz = stored_codec,
       assembleUDF = (\<lambda>udf_file template_file placeholder ext. ''/tmp/udf.cpp''),
       writeToDisk = (\<lambda>buf ext. ''/tmp/udf.so''),
       fork_result = 1234,
       execvp_fails = False,
       so_output = (\<lambda>path. None),
       wait_status = 0,
       mm_create = (\<lambda>n. True),
       mm_addr = 1,
       mm_after_wait = [42, 0, 0, 0, 42, 0, 0, 0],
       shlib_open = (\<lambda>path. True),
       loadsym = (\<lambda>sym. True),
       so_tables = \<lparr> hdf5_udf_data = [], hdf5_udf_names = [], hdf5_udf_types = [],
                     hdf5_udf_dims = [] \<rparr>,
       sandbox_enabled = True,
       sandbox_init = (\<lambda>path. True),
       udf_returns = (\<lambda>t. True),
       pipe_ok = True,
       pipe_reads = [] \<rparr>"

definition sample_output :: DatasetInfo where
  "sample_output =
     \<lparr> dataset_name = ''out'', datatype_tag = ''int32'', dimensions = [2],
       storage_size = 4, dataset_data = 0 \<rparr>"

definition sample_world :: world where
  "sample_world = \<lparr> mem = (\<lambda>a. if a = 0 then [7, 7, 7, 7, 7, 7, 7, 7, 9] else []), trace = [] \<rparr>"

definition sample_blob :: bytes where
  "sample_blob = [127, 69, 76, 70, 4, 0, 0, 0, 0, 0, 0, 0]"

text \<open>
  Two outputs of the preprocessor: the two calls of the specification's scan scenario on
  a line each, and two calls on one line.
\<close>

definition example_line1 :: string where
  "example_line1 = ''auto v = lib.getData<float>('' @ [dquote] @ ''temp'' @ [dquote] @ '');''"

definition example_line2 :: string where
  "example_line2 = ''lib.getData<int>('' @ [dquote] @ ''rh'' @ [dquote] @ '');''"

definition example_input :: string where
  "example_input = example_line1 @ [newline] @ example_line2 @ [newline]"

definition two_calls_line :: string where
  "two_calls_line =
     ''lib.getData<int>('' @ [dquote] @ ''a'' @ [dquote] @ ''); lib.getData<int>(''
       @ [dquote] @ ''b'' @ [dquote] @ '');''"

definition two_calls_input :: string where
  "two_calls_input = two_calls_line @ [newline]"

section \<open>Properties\<close>

subsection \<open>Words and the trailer bytes\<close>

lemma load_store_le: "load_u64 (store_le n w) = take_bit (8 * n) w"
proof (induction n arbitrary: w)
  case 0
  show ?case by simp
next
  case (Suc n)
  have "ucast (ucast w :: byte) OR push_bit 8 (take_bit (8 * n) (drop_bit 8 w))
          = take_bit (8 * Suc n) w"
    by (rule bit_word_eqI) (auto simp: bit_simps)
  with Suc show ?case by simp
qed

lemma store_u64_le:
  "store_u64 w = store_le (Suc (Suc (Suc (Suc (Suc (Suc (Suc (Suc 0)))))))) w"
  by (simp add: store_u64_def)

lemma load_store_u64: "load_u64 (store_u64 w) = w"
proof -
  have "load_u64 (store_u64 w) = take_bit 64 w"
    unfolding store_u64_le load_store_le by simp
  then show ?thesis by (simp add: take_bit_word_eq_self)
qed

lemma length_store_u64: "length (store_u64 w) = 8"
  by (simp add: store_u64_def)

lemma unat_sub8:
  assumes "8 \<le> n" "n < 2 ^ 64"
  shows "unat ((word_of_nat n :: 64 word) - 8) = n - 8"
proof -
  have "(word_of_nat n :: 64 word) - 8 = word_of_nat (n - 8)"
    using assms by simp
  moreover have "unat (word_of_nat (n - 8) :: 64 word) = (n - 8) mod 2 ^ LENGTH(64)"
    by (rule unat_of_nat)
  moreover have "(n - 8) mod 2 ^ LENGTH(64) = n - 8"
    using assms by simp
  ultimately show ?thesis by (simp only:)
qed

lemma unat_sub8_wraps:
  assumes "n < 8"
  shows "n < unat ((word_of_nat n :: 64 word) - 8) + 8"
proof -
  from assms consider "n = 0" | "n = 1" | "n = 2" | "n = 3" | "n = 4" | "n = 5" | "n = 6" | "n = 7"
    by linarith
  then show ?thesis by cases simp_all
qed

subsection \<open>The codec: trailer and round trip\<close>

lemma compressBuffer_ok:
  assumes "mz_compress c (mz_compressBound c (length x)) x = (Z_OK, z)"
    and "length z + 8 \<le> mz_compressBound c (length x)"
  shows "compressBuffer c x = Inr (z @ store_u64 (word_of_nat (length x)))"
  using assms
  by (simp add: compressBuffer_def Let_def resize_def stored_in_def memcpy_to_def
      length_store_u64)

lemma decompressBuffer_ok:
  assumes "length z + 8 < 2 ^ 64" "n < 2 ^ 64"
    and "mz_uncompress c n z = (Z_OK, x)" "length x = n"
  shows "decompressBuffer c (z @ store_u64 (word_of_nat n)) = Inr x"
proof -
  let ?blob = "z @ store_u64 (word_of_nat n :: 64 word)"
  have len: "length ?blob = length z + 8"
    by (simp add: length_store_u64)
  have off: "unat ((word_of_nat (length ?blob) :: 64 word) - 8) = length z"
    using assms(1) unat_sub8 [of "length z + 8"] len by simp
  have rd: "memcpy_from ?blob (length z) 8 = Inr (store_u64 (word_of_nat n))"
    by (simp add: memcpy_from_def length_store_u64)
  have us: "unat (load_u64 (store_u64 (word_of_nat n :: 64 word))) = n"
    using assms(2) by (simp add: load_store_u64 unat_of_nat)
  show ?thesis
    unfolding decompressBuffer_def Let_def off rd
    using assms(3,4) by (simp add: us stored_in_def resize_def)
qed

text \<open>
  Claim C1. For every non-empty byte string \<open>x\<close> (of a length a \<^verbatim>\<open>size_t\<close> holds), when
  the codec compresses \<open>x\<close> to \<open>z\<close> within the bound, leaving room for the trailer, and
  uncompresses \<open>z\<close> into a destination of exactly \<open>length x\<close> bytes to \<open>x\<close>:
  \<open>compressBuffer\<close> returns \<open>z\<close> followed by the eight little-endian bytes of
  \<open>length x\<close>; \<open>decompressBuffer\<close> reads that trailer back as \<open>length x\<close> and returns \<open>x\<close>.
\<close>

theorem compress_decompress_roundtrip:
  assumes "x \<noteq> []" and "length x < 2 ^ 64"
    and "mz_compress c (mz_compressBound c (length x)) x = (Z_OK, z)"
    and "length z + 8 \<le> mz_compressBound c (length x)"
    and "length z + 8 < 2 ^ 64"
    and "mz_uncompress c (length x) z = (Z_OK, x)"
  shows "\<exists>blob. compressBuffer c x = Inr blob
           \<and> blob = z @ store_u64 (word_of_nat (length x))
           \<and> unat (load_u64 (drop (length blob - 8) blob)) = length x
           \<and> decompressBuffer c blob = Inr x"
proof -
  let ?blob = "z @ store_u64 (word_of_nat (length x) :: 64 word)"
  have "compressBuffer c x = Inr ?blob"
    using assms(3,4) by (rule compressBuffer_ok)
  moreover have "unat (load_u64 (drop (length ?blob - 8) ?blob)) = length x"
    using assms(2) by (simp add: length_store_u64 load_store_u64 unat_of_nat)
  moreover have "decompressBuffer c ?blob = Inr x"
    using assms(5,2,6) by (rule decompressBuffer_ok) simp
  ultimately show ?thesis by blast
qed

theorem compress_decompress_roundtrip_witness:
  "compressBuffer stored_codec [1, 2, 3] = Inr [1, 2, 3, 3, 0, 0, 0, 0, 0, 0, 0]
     \<and> decompressBuffer stored_codec [1, 2, 3, 3, 0, 0, 0, 0, 0, 0, 0] = Inr [1, 2, 3]"
  using compress_decompress_roundtrip [of "[1, 2, 3]" stored_codec "[1, 2, 3]"]
  by (simp add: stored_codec_def store_u64_def)

text \<open>
  Claim C10. \<open>decompressBuffer\<close> makes no length check before it reads the trailer at
  offset \<open>csize - 8\<close>: for a blob (of a length a \<^verbatim>\<open>size_t\<close> holds) the read is out of
  bounds exactly when the blob is shorter than 8 bytes.
\<close>

theorem decompressBuffer_short_blob:
  assumes "length blob < 2 ^ 64"
  shows "decompressBuffer c blob = Inl OutOfBounds \<longleftrightarrow> length blob < 8"
proof (cases "length blob < 8")
  case True
  then show ?thesis
    using unat_sub8_wraps [of "length blob"]
    by (simp add: decompressBuffer_def Let_def memcpy_from_def)
next
  case False
  then show ?thesis
    using unat_sub8 [of "length blob"] assms
    by (simp add: decompressBuffer_def Let_def memcpy_from_def split: prod.splits)
qed

theorem decompressBuffer_short_blob_witness:
  "decompressBuffer stored_codec [1, 2, 3] = Inl OutOfBounds
     \<and> decompressBuffer stored_codec [1, 2, 3, 3, 0, 0, 0, 0, 0, 0, 0] \<noteq> Inl OutOfBounds"
  using decompressBuffer_short_blob [of "[1, 2, 3]" stored_codec]
    decompressBuffer_short_blob [of "[1, 2, 3, 3, 0, 0, 0, 0, 0, 0, 0]" stored_codec]
  by simp

subsection \<open>The sandbox library\<close>

lemma path_listed_iff: "path_listed ps path \<longleftrightarrow> path \<in> set ps"
  by (induction ps) auto

lemma find_first_of_at_single:
  "find_first_of_at [c] s i =
     (if c \<in> set s then i + length (takeWhile (\<lambda>x. x \<noteq> c) s) else npos)"
  by (induction s arbitrary: i) auto

lemma find_at_single:
  "find_at [c] s i = (if c \<in> set s then i + length (takeWhile (\<lambda>x. x \<noteq> c) s) else npos)"
  by (induction s arbitrary: i) auto

lemma takeWhile_shorter:
  assumes "c \<in> set s"
  shows "length (takeWhile (\<lambda>x. x \<noteq> c) s) < length s"
proof -
  have "length (takeWhile (\<lambda>x. x \<noteq> c) s) + length (dropWhile (\<lambda>x. x \<noteq> c) s) = length s"
    by (metis length_append takeWhile_dropWhile_id)
  moreover have "dropWhile (\<lambda>x. x \<noteq> c) s \<noteq> []"
    using assms by simp
  ultimately show ?thesis
    by (cases "dropWhile (\<lambda>x. x \<noteq> c) s") auto
qed

lemma find_star_npos:
  assumes "length path < 2 ^ 64"
  shows "str_find path ''*'' = npos \<longleftrightarrow> CHR ''*'' \<notin> set path"
proof (cases "CHR ''*'' \<in> set path")
  case True
  then have "length (takeWhile (\<lambda>x. x \<noteq> CHR ''*'') path) < length path"
    by (rule takeWhile_shorter)
  with assms have "length (takeWhile (\<lambda>x. x \<noteq> CHR ''*'') path) \<noteq> npos"
    by (simp add: npos_def)
  with True show ?thesis
    by (simp add: str_find_def find_at_single)
next
  case False
  then show ?thesis
    by (simp add: str_find_def find_at_single)
qed

lemma resolve_wildcards_expand:
  assumes "\<forall>p \<in> set files. length p < 2 ^ 64"
  shows "resolve_wildcards glob files allowed = allowed @ expand glob files"
  using assms
proof (induction files arbitrary: allowed)
  case Nil
  show ?case by (simp add: expand_def)
next
  case (Cons path files)
  then have len: "length path < 2 ^ 64" and rest: "\<forall>p \<in> set files. length p < 2 ^ 64"
    by simp_all
  have ih: "\<And>acc. resolve_wildcards glob files acc = acc @ expand glob files"
    using Cons.IH rest by blast
  have ex: "expand glob (path # files) = expand_entry glob path @ expand glob files"
    by (simp add: expand_def)
  show ?case
    unfolding ex
    by (cases "glob path") (simp add: ih find_star_npos [OF len] expand_entry_def)
qed

text \<open>
  Claim C6. For every intercepted system call: for \<^verbatim>\<open>stat\<close>, \<^verbatim>\<open>lstat\<close> and \<^verbatim>\<open>open\<close> the path
  is the string at the first argument, for \<^verbatim>\<open>openat\<close> the string at the second; when the
  path equals an entry of the allowlist the hook returns non-zero (the original system
  call is executed) and leaves \<^verbatim>\<open>*ret\<close> alone, when it equals none the hook returns zero
  (the call does not enter the kernel) with \<^verbatim>\<open>*ret = -EPERM\<close>; for \<^verbatim>\<open>fstat\<close> and every other
  system call the hook returns non-zero and leaves \<^verbatim>\<open>*ret\<close> alone.
\<close>

theorem syscall_intercept_allowlist:
  "(syscall_nr \<in> {SYS_stat, SYS_lstat, SYS_open} \<longrightarrow>
      syscall_intercept lib cstring syscall_nr arg0 arg1 arg2 arg3 arg4 arg5 ret =
        (if cstring arg0 \<in> set (files_allowed lib) then (1, ret) else (0, - EPERM)))
   \<and> (syscall_nr = SYS_openat \<longrightarrow>
      syscall_intercept lib cstring syscall_nr arg0 arg1 arg2 arg3 arg4 arg5 ret =
        (if cstring arg1 \<in> set (files_allowed lib) then (1, ret) else (0, - EPERM)))
   \<and> (syscall_nr \<notin> {SYS_stat, SYS_lstat, SYS_open, SYS_openat} \<longrightarrow>
      syscall_intercept lib cstring syscall_nr arg0 arg1 arg2 arg3 arg4 arg5 ret = (1, ret))"
  by (simp add: syscall_intercept_def test_file_ok_def path_listed_iff
      SYS_stat_def SYS_lstat_def SYS_open_def SYS_openat_def)

theorem syscall_intercept_allowlist_witness:
  "syscall_intercept static_init (\<lambda>a. if a = 100 then ''/etc/resolv.conf'' else ''/etc/passwd'')
      SYS_open 100 0 0 0 0 0 77 = (1, 77)
   \<and> syscall_intercept static_init (\<lambda>a. if a = 100 then ''/etc/resolv.conf'' else ''/etc/passwd'')
      SYS_openat 3 101 0 0 0 0 77 = (0, - 1)
   \<and> syscall_intercept static_init (\<lambda>a. if a = 100 then ''/etc/resolv.conf'' else ''/etc/passwd'')
      SYS_fstat 3 101 0 0 0 0 77 = (1, 77)"
  using
    syscall_intercept_allowlist [of SYS_open static_init
      "\<lambda>a. if a = 100 then ''/etc/resolv.conf'' else ''/etc/passwd''" 100 0 0 0 0 0 77]
    syscall_intercept_allowlist [of SYS_openat static_init
      "\<lambda>a. if a = 100 then ''/etc/resolv.conf'' else ''/etc/passwd''" 3 101 0 0 0 0 77]
    syscall_intercept_allowlist [of SYS_fstat static_init
      "\<lambda>a. if a = 100 then ''/etc/resolv.conf'' else ''/etc/passwd''" 3 101 0 0 0 0 77]
  by (simp add: static_init_def EPERM_def
      SYS_stat_def SYS_lstat_def SYS_open_def SYS_openat_def SYS_fstat_def)

text \<open>
  Claim C7. The default allowlist is \<^verbatim>\<open>/etc/resolv.conf\<close>; loading the library runs the
  expansion once, on that list; the expansion (for entries of a length a \<^verbatim>\<open>size_t\<close>
  holds) replaces every entry containing a \<open>*\<close> by what \<^verbatim>\<open>glob\<close> with \<^verbatim>\<open>GLOB_NOSORT\<close>
  finds for it, in the order found, and keeps every literal entry.
\<close>

theorem allowlist_expansion:
  assumes "\<forall>p \<in> set (files_allowed lib). length p < 2 ^ 64"
  shows "files_allowed (syscall_intercept_init glob lib) = expand glob (files_allowed lib)
     \<and> files_allowed static_init = [''/etc/resolv.conf'']
     \<and> library_load glob = syscall_intercept_init glob static_init
     \<and> files_allowed (library_load glob) = [''/etc/resolv.conf'']"
proof -
  have "files_allowed (syscall_intercept_init glob lib) = expand glob (files_allowed lib)"
    using resolve_wildcards_expand [OF assms, of glob "[]"]
    by (simp add: syscall_intercept_init_def Let_def)
  moreover have "files_allowed (library_load glob) = [''/etc/resolv.conf'']"
    by (simp add: library_load_def syscall_intercept_init_def static_init_def Let_def
        str_find_def npos_def)
  ultimately show ?thesis
    by (simp add: static_init_def library_load_def)
qed

theorem allowlist_expansion_witness:
  "files_allowed
     (syscall_intercept_init
        (\<lambda>p. if p = ''/etc/ssl/*'' then (0, [''/etc/ssl/b'', ''/etc/ssl/a'']) else (3, []))
        \<lparr> files_allowed = [''/etc/resolv.conf'', ''/etc/ssl/*'', ''/none/*''],
          intercept_hook_point = False \<rparr>)
   = [''/etc/resolv.conf'', ''/etc/ssl/b'', ''/etc/ssl/a'']"
  using allowlist_expansion
    [of "\<lparr> files_allowed = [''/etc/resolv.conf'', ''/etc/ssl/*'', ''/none/*''],
            intercept_hook_point = False \<rparr>"
        "\<lambda>p. if p = ''/etc/ssl/*'' then (0, [''/etc/ssl/b'', ''/etc/ssl/a'']) else (3, [])"]
  by (simp add: expand_def expand_entry_def)

subsection \<open>run and compile\<close>

lemma sample_decompress: "decompressBuffer stored_codec sample_blob = Inr [127, 69, 76, 70]"
  by (simp add: decompressBuffer_def sample_blob_def memcpy_from_def stored_codec_def
      stored_in_def resize_def Let_def)

lemma sample_room: "unat (getGridSize sample_output * getStorageSize sample_output) = 8"
  by (simp add: getGridSize_def getStorageSize_def sample_output_def)

text \<open>
  Claim C3. For every call of \<open>run\<close> in which decompression, the write to disk, the
  creation of the shared region and \<^verbatim>\<open>fork\<close> succeed (in the parent; the region holds
  \<open>room_size\<close> bytes and the caller's buffer at least as many): \<open>run\<close> returns true
  whatever the exit status of the child, and after the wait the first
  \<open>room_size = grid_size * storage_size\<close> bytes of the caller's output buffer are the
  bytes of the shared region; the events are \<^verbatim>\<open>chmod\<close>, the wait and the \<^verbatim>\<open>unlink\<close> of
  the shared object.
\<close>

theorem run_parent_copies_room:
  assumes "decompressBuffer (miniz env) sharedlib_data = Inr so" and "so \<noteq> []"
    and "writeToDisk env so extension = so_file" and "so_file \<noteq> []"
    and "room_size = getGridSize output_dataset * getStorageSize output_dataset"
    and "mm_create env (unat room_size)"
    and "0 < fork_result env"
    and "length (mm_after_wait env) = unat room_size"
    and "unat room_size \<le> length (mem w (dataset_data output_dataset))"
  shows "run env filterpath input_datasets output_dataset output_cast_datatype sharedlib_data w
           = (Returned True,
              w\<lparr>mem := (mem w)(dataset_data output_dataset :=
                          mm_after_wait env
                            @ drop (unat room_size) (mem w (dataset_data output_dataset))),
                trace := trace w @ [Chmod so_file 493, Wait, Unlink so_file]\<rparr>)
         \<and> (\<forall>status.
               run (env\<lparr>wait_status := status\<rparr>) filterpath input_datasets output_dataset
                 output_cast_datatype sharedlib_data w
               = run env filterpath input_datasets output_dataset output_cast_datatype
                   sharedlib_data w)"
proof -
  have "run env filterpath input_datasets output_dataset output_cast_datatype sharedlib_data w
           = (Returned True,
              w\<lparr>mem := (mem w)(dataset_data output_dataset :=
                          mm_after_wait env
                            @ drop (unat room_size) (mem w (dataset_data output_dataset))),
                trace := trace w @ [Chmod so_file 493, Wait, Unlink so_file]\<rparr>)"
    using assms
    by (simp add: run_def Let_def memcpy_from_def memcpy_to_def emit_def)
  moreover have "\<forall>status.
               run (env\<lparr>wait_status := status\<rparr>) filterpath input_datasets output_dataset
                 output_cast_datatype sharedlib_data w
               = run env filterpath input_datasets output_dataset output_cast_datatype
                   sharedlib_data w"
    by (simp add: run_def run_child_def Let_def split: sum.splits)
  ultimately show ?thesis by blast
qed

theorem run_parent_copies_room_witness:
  "fst (run sample_env ''file.h5'' [] sample_output ''int32'' sample_blob sample_world)
     = Returned True
   \<and> mem (snd (run sample_env ''file.h5'' [] sample_output ''int32'' sample_blob sample_world)) 0
     = [42, 0, 0, 0, 42, 0, 0, 0, 9]
   \<and> fst (run (sample_env\<lparr>wait_status := 139\<rparr>) ''file.h5'' [] sample_output ''int32''
            sample_blob sample_world)
     = Returned True"
proof -
  have e: "miniz sample_env = stored_codec" "writeToDisk sample_env = (\<lambda>buf ext. ''/tmp/udf.so'')"
    "mm_create sample_env = (\<lambda>n. True)" "fork_result sample_env = 1234"
    "mm_after_wait sample_env = [42, 0, 0, 0, 42, 0, 0, 0]"
    by (simp_all add: sample_env_def)
  have "run sample_env ''file.h5'' [] sample_output ''int32'' sample_blob sample_world
           = (Returned True,
              sample_world\<lparr>mem := (mem sample_world)(dataset_data sample_output :=
                          mm_after_wait sample_env
                            @ drop (unat (8 :: size_t)) (mem sample_world (dataset_data sample_output))),
                trace := trace sample_world @ [Chmod ''/tmp/udf.so'' 493, Wait, Unlink ''/tmp/udf.so'']\<rparr>)
         \<and> (\<forall>status.
               run (sample_env\<lparr>wait_status := status\<rparr>) ''file.h5'' [] sample_output
                 ''int32'' sample_blob sample_world
               = run sample_env ''file.h5'' [] sample_output ''int32'' sample_blob sample_world)"
    by (rule run_parent_copies_room [where so = "[127, 69, 76, 70]"])
       (simp_all add: e sample_decompress sample_room sample_world_def sample_output_def
          getGridSize_def getStorageSize_def)
  then show ?thesis
    by (simp add: sample_world_def sample_output_def e)
qed

text \<open>
  Claim C9. For every environment, sandbox policy, input list, output descriptor, blob
  and state, the result and the effects of \<open>run\<close> are the same for all values of
  \<open>output_cast_datatype\<close>.
\<close>

theorem run_ignores_output_cast_datatype:
  "run env filterpath input_datasets output_dataset cast1 sharedlib_data w
     = run env filterpath input_datasets output_dataset cast2 sharedlib_data w"
  by (simp add: run_def)


text \<open>
  Claim C4. The failures of \<open>run\<close> in the parent before the child is waited for: when
  decompression yields nothing, when the write to disk fails and when the shared region
  cannot be created, \<open>run\<close> returns false and no buffer is modified; when \<^verbatim>\<open>fork\<close>
  fails (a negative value), neither branch is taken and \<open>run\<close> returns true, with no
  buffer modified.
\<close>

theorem run_parent_failures:
  "(decompressBuffer (miniz env) sharedlib_data = Inr [] \<longrightarrow>
      run env filterpath input_datasets output_dataset output_cast_datatype sharedlib_data w
        = (Returned False, w))
   \<and> (decompressBuffer (miniz env) sharedlib_data = Inr so \<and> so \<noteq> []
        \<and> writeToDisk env so extension = [] \<longrightarrow>
      run env filterpath input_datasets output_dataset output_cast_datatype sharedlib_data w
        = (Returned False, w))
   \<and> (decompressBuffer (miniz env) sharedlib_data = Inr so \<and> so \<noteq> []
        \<and> writeToDisk env so extension = so_file \<and> so_file \<noteq> []
        \<and> \<not> mm_create env (unat (getGridSize output_dataset * getStorageSize output_dataset))
        \<longrightarrow>
      run env filterpath input_datasets output_dataset output_cast_datatype sharedlib_data w
        = (Returned False, w\<lparr>trace := trace w @ [Chmod so_file 493, Unlink so_file]\<rparr>))
   \<and> (decompressBuffer (miniz env) sharedlib_data = Inr so \<and> so \<noteq> []
        \<and> writeToDisk env so extension = so_file \<and> so_file \<noteq> []
        \<and> mm_create env (unat (getGridSize output_dataset * getStorageSize output_dataset))
        \<and> fork_result env < 0 \<longrightarrow>
      run env filterpath input_datasets output_dataset output_cast_datatype sharedlib_data w
        = (Returned True, w\<lparr>trace := trace w @ [Chmod so_file 493, Unlink so_file]\<rparr>))"
  by (simp add: run_def Let_def emit_def)

theorem run_parent_failures_witness:
  "run (sample_env\<lparr>fork_result := - 1\<rparr>) ''file.h5'' [] sample_output ''int32'' sample_blob
       sample_world
     = (Returned True,
        sample_world\<lparr>trace := [Chmod ''/tmp/udf.so'' 493, Unlink ''/tmp/udf.so'']\<rparr>)"
  using run_parent_failures [of "sample_env\<lparr>fork_result := - 1\<rparr>" sample_blob "''file.h5''" "[]"
      sample_output "''int32''" sample_world "[127, 69, 76, 70]" "''/tmp/udf.so''"]
  by (simp add: sample_env_def sample_decompress sample_room sample_world_def)

text \<open>
  Claim C5. In the child of \<open>run\<close> (\<^verbatim>\<open>fork\<close> returned 0): when the shared object cannot
  be opened, or the entry symbol or one of the four tables is missing, the child
  returns false from \<open>run\<close> to its caller and does not exit; when the sandbox cannot be
  initialised it leaves through \<^verbatim>\<open>_exit(1)\<close>; when the user-defined function returns it
  leaves through \<^verbatim>\<open>_exit(0)\<close>.
\<close>

theorem run_child_outcomes:
  assumes "decompressBuffer (miniz env) sharedlib_data = Inr so" and "so \<noteq> []"
    and "writeToDisk env so extension = so_file" and "so_file \<noteq> []"
    and "mm_create env (unat (getGridSize output_dataset * getStorageSize output_dataset))"
    and "fork_result env = 0"
  shows "fst (run env filterpath input_datasets output_dataset output_cast_datatype
                sharedlib_data w)
         = (if \<not> shlib_open env so_file then Returned False
            else if \<not> (loadsym env ''dynamic_dataset'' \<and> loadsym env ''hdf5_udf_data''
                        \<and> loadsym env ''hdf5_udf_names'' \<and> loadsym env ''hdf5_udf_types''
                        \<and> loadsym env ''hdf5_udf_dims'')
            then Returned False
            else if sandbox_enabled env \<and> \<not> sandbox_init env filterpath then LowLevelExit 1
            else if udf_returns env
                      (populate (output_dataset\<lparr>dataset_data := mm_addr env\<rparr> # input_datasets)
                         (so_tables env))
            then LowLevelExit 0
            else DiedInUdf)"
  using assms
  by (simp add: run_def run_child_def Let_def)

theorem run_child_outcomes_witness:
  "fst (run (sample_env\<lparr>fork_result := 0, shlib_open := (\<lambda>path. False)\<rparr>) ''file.h5'' []
          sample_output ''int32'' sample_blob sample_world)
     = Returned False
   \<and> fst (run (sample_env\<lparr>fork_result := 0, loadsym := (\<lambda>sym. sym \<noteq> ''dynamic_dataset'')\<rparr>)
          ''file.h5'' [] sample_output ''int32'' sample_blob sample_world)
     = Returned False
   \<and> fst (run (sample_env\<lparr>fork_result := 0, sandbox_init := (\<lambda>path. False)\<rparr>) ''file.h5'' []
          sample_output ''int32'' sample_blob sample_world)
     = LowLevelExit 1
   \<and> fst (run (sample_env\<lparr>fork_result := 0\<rparr>) ''file.h5'' [] sample_output ''int32''
          sample_blob sample_world)
     = LowLevelExit 0"
  using
    run_child_outcomes [of "sample_env\<lparr>fork_result := 0, shlib_open := (\<lambda>path. False)\<rparr>"
      sample_blob "[127, 69, 76, 70]" "''/tmp/udf.so''" sample_output "''file.h5''" "[]"
      "''int32''" sample_world]
    run_child_outcomes
      [of "sample_env\<lparr>fork_result := 0, loadsym := (\<lambda>sym. sym \<noteq> ''dynamic_dataset'')\<rparr>"
      sample_blob "[127, 69, 76, 70]" "''/tmp/udf.so''" sample_output "''file.h5''" "[]"
      "''int32''" sample_world]
    run_child_outcomes [of "sample_env\<lparr>fork_result := 0, sandbox_init := (\<lambda>path. False)\<rparr>"
      sample_blob "[127, 69, 76, 70]" "''/tmp/udf.so''" sample_output "''file.h5''" "[]"
      "''int32''" sample_world]
    run_child_outcomes [of "sample_env\<lparr>fork_result := 0\<rparr>"
      sample_blob "[127, 69, 76, 70]" "''/tmp/udf.so''" sample_output "''file.h5''" "[]"
      "''int32''" sample_world]
  by (simp add: sample_env_def sample_decompress sample_room)

text \<open>
  Claim C2. For every call of \<open>compile\<close> in which assembly succeeds and, after the
  compiler child is waited for, no file exists at \<^verbatim>\<open><udf_file>.so\<close>: \<open>compile\<close> unlinks
  the assembled source and returns \<open>compressBuffer\<close> of the empty byte string, which is
  the empty blob only when the codec does not report \<^verbatim>\<open>Z_OK\<close> for the empty input; when
  the codec compresses the empty input to \<open>z\<close>, the blob returned is \<open>z\<close> followed by
  an all-zero trailer, at least 8 bytes long.
\<close>

theorem compile_missing_output:
  assumes "assembleUDF env udf_file template_file ''// user_callback_placeholder'' extension
             = cpp_file"
    and "cpp_file \<noteq> []"
    and "0 < fork_result env"
    and "so_output env (udf_file @ ''.so'') = None"
  shows "snd (compile env udf_file template_file w)
           = w\<lparr>trace := trace w @ [Wait, Unlink cpp_file]\<rparr>
     \<and> (fst (mz_compress (miniz env) (mz_compressBound (miniz env) 0) []) \<noteq> Z_OK \<longrightarrow>
          fst (compile env udf_file template_file w) = Returned [])
     \<and> (mz_compress (miniz env) (mz_compressBound (miniz env) 0) [] = (Z_OK, z)
          \<and> length z + 8 \<le> mz_compressBound (miniz env) 0 \<longrightarrow>
          fst (compile env udf_file template_file w) = Returned (z @ store_u64 0)
          \<and> length (z @ store_u64 0) = length z + 8)"
proof -
  have c: "compile env udf_file template_file w
             = (case compressBuffer (miniz env) [] of
                  Inl f \<Rightarrow> (Undefined f, w\<lparr>trace := trace w @ [Wait, Unlink cpp_file]\<rparr>)
                | Inr blob \<Rightarrow> (Returned blob, w\<lparr>trace := trace w @ [Wait, Unlink cpp_file]\<rparr>))"
    using assms by (simp add: compile_def Let_def emit_def split: sum.splits)
  have 1: "snd (compile env udf_file template_file w)
             = w\<lparr>trace := trace w @ [Wait, Unlink cpp_file]\<rparr>"
    unfolding c by (simp split: sum.splits)
  have 2: "fst (compile env udf_file template_file w) = Returned []"
    if "fst (mz_compress (miniz env) (mz_compressBound (miniz env) 0) []) \<noteq> Z_OK"
    unfolding c using that by (auto simp: compressBuffer_def Let_def split: prod.splits)
  have 3: "fst (compile env udf_file template_file w) = Returned (z @ store_u64 0)"
    if "mz_compress (miniz env) (mz_compressBound (miniz env) 0) [] = (Z_OK, z)"
      and "length z + 8 \<le> mz_compressBound (miniz env) 0"
    unfolding c using compressBuffer_ok [of "miniz env" "[]" z] that by simp
  show ?thesis
    using 1 2 3 by (simp add: length_store_u64)
qed

theorem compile_missing_output_witness:
  "compile sample_env ''udf.cpp'' ''template.cpp'' sample_world
     = (Returned [0, 0, 0, 0, 0, 0, 0, 0],
        sample_world\<lparr>trace := [Wait, Unlink ''/tmp/udf.cpp'']\<rparr>)"
proof -
  have "snd (compile sample_env ''udf.cpp'' ''template.cpp'' sample_world)
           = sample_world\<lparr>trace := trace sample_world @ [Wait, Unlink ''/tmp/udf.cpp'']\<rparr>
     \<and> (fst (mz_compress (miniz sample_env) (mz_compressBound (miniz sample_env) 0) []) \<noteq> Z_OK
          \<longrightarrow> fst (compile sample_env ''udf.cpp'' ''template.cpp'' sample_world) = Returned [])
     \<and> (mz_compress (miniz sample_env) (mz_compressBound (miniz sample_env) 0) [] = (Z_OK, [])
          \<and> length ([] :: bytes) + 8 \<le> mz_compressBound (miniz sample_env) 0 \<longrightarrow>
          fst (compile sample_env ''udf.cpp'' ''template.cpp'' sample_world)
            = Returned ([] @ store_u64 0)
          \<and> length ([] @ store_u64 0) = length ([] :: bytes) + 8)"
    by (rule compile_missing_output [where cpp_file = "''/tmp/udf.cpp''"])
       (simp_all add: sample_env_def)
  then have "snd (compile sample_env ''udf.cpp'' ''template.cpp'' sample_world)
           = sample_world\<lparr>trace := [Wait, Unlink ''/tmp/udf.cpp'']\<rparr>"
    and "fst (compile sample_env ''udf.cpp'' ''template.cpp'' sample_world)
           = Returned [0, 0, 0, 0, 0, 0, 0, 0]"
    by (simp_all add: sample_env_def stored_codec_def store_u64_def sample_world_def)
  then show ?thesis
    by (simp add: prod_eq_iff)
qed

subsection \<open>udfDatasetNames\<close>

text \<open>The two loops over the lines are unfolded by hand, one step at a time.\<close>

declare scan_loop.simps [simp del] lines_of.simps [simp del]

lemma upt_Suc_shift: "[0..<Suc n] = 0 # map Suc [0..<n]"
  by (simp add: upt_conv_Cons map_Suc_upt del: upt_Suc)

lemma find_at_occurrences:
  assumes "tok \<noteq> []"
  shows "find_at tok s i =
           (case filter (\<lambda>j. take (length tok) (drop j s) = tok) [0..<length s] of
              [] \<Rightarrow> npos
            | j # _ \<Rightarrow> i + j)"
proof (induction s arbitrary: i)
  case Nil
  with assms show ?case by simp
next
  case (Cons c cs)
  have shift: "filter (\<lambda>j. take (length tok) (drop j (c # cs)) = tok) (map Suc [0..<length cs])
                 = map Suc (filter (\<lambda>j. take (length tok) (drop j cs) = tok) [0..<length cs])"
    by (simp add: filter_map comp_def)
  show ?case
  proof (cases "take (length tok) (c # cs) = tok")
    case True
    then show ?thesis
      by (simp add: upt_Suc_shift del: upt_Suc)
  next
    case False
    then show ?thesis
      using Cons.IH [of "Suc i"]
      by (simp add: upt_Suc_shift shift del: upt_Suc split: list.splits)
  qed
qed

lemma str_find_occurrences:
  "str_find line getData_token = (case occurrences line of [] \<Rightarrow> npos | j # _ \<Rightarrow> j)"
proof -
  have "getData_token \<noteq> []"
    by (simp add: getData_token_def)
  then show ?thesis
    unfolding str_find_def occurrences_def
    by (simp add: find_at_occurrences split: list.splits)
qed

lemma occurrences_bound:
  assumes "occurrences line = i # rest"
  shows "i < length line"
proof -
  have "i \<in> set (occurrences line)"
    using assms by simp
  then show ?thesis
    by (simp add: occurrences_def)
qed

lemma drop_after_takeWhile:
  assumes "dropWhile P s = q # body"
  shows "drop (Suc (length (takeWhile P s))) s = body"
proof -
  have "s = takeWhile P s @ q # body"
    using assms by (metis takeWhile_dropWhile_id)
  then have "drop (Suc (length (takeWhile P s))) s
               = drop (Suc (length (takeWhile P s))) (takeWhile P s @ q # body)"
    by simp
  then show ?thesis by simp
qed

text \<open>No call of \<open>substr\<close> in the loop body throws: a line with the token adds one name.\<close>

lemma scan_line_adds_one:
  assumes occ: "occurrences line = i # rest" and len: "length line < 2 ^ 64"
  shows "\<exists>name. scan_line line names = Inr (names @ [name])"
proof -
  let ?s = "drop i line"
  have i_lt: "i < length line"
    using occ by (rule occurrences_bound)
  have n: "str_find line getData_token = i"
    by (simp add: str_find_occurrences occ)
  have i_npos: "i \<noteq> npos"
    using i_lt len by (simp add: npos_def)
  have sub1: "substr line i npos = Inr ?s"
    using i_lt len by (simp add: substr_def npos_def)
  define start where "start = find_first_of ?s [dquote]"
  have pos: "(i + start + 1) mod 2 ^ 64 \<le> length line \<and> (start + 1) mod 2 ^ 64 \<le> length ?s"
  proof (cases "dquote \<in> set ?s")
    case True
    then have st: "start = length (takeWhile (\<lambda>c. c \<noteq> dquote) ?s)"
      by (simp add: start_def find_first_of_def find_first_of_at_single)
    have "start < length ?s"
      unfolding st using True by (rule takeWhile_shorter)
    then have "i + start + 1 \<le> length line" "start + 1 \<le> length ?s"
      using i_lt by simp_all
    moreover have "(i + start + 1) mod 2 ^ 64 \<le> i + start + 1"
      "(start + 1) mod 2 ^ 64 \<le> start + 1"
      by (rule mod_less_eq_dividend)+
    ultimately show ?thesis by linarith
  next
    case False
    then have st: "start = npos"
      by (simp add: start_def find_first_of_def find_first_of_at_single)
    have "(i + npos + 1) mod 2 ^ 64 = i" "(npos + 1) mod 2 ^ 64 = 0"
      using i_lt len by (simp_all add: npos_def)
    then show ?thesis
      using i_lt by (simp add: st)
  qed
  then obtain after_start name
    where sub2: "substr line ((i + start + 1) mod 2 ^ 64) npos = Inr after_start"
      and sub3: "substr ?s ((start + 1) mod 2 ^ 64) (find_first_of after_start [dquote])
                   = Inr name"
    by (simp add: substr_def)
  have "scan_line line names = Inr (names @ [name])"
    unfolding scan_line_def Let_def n
    using sub2 sub3
    by (simp only: i_npos sub1 start_def [symmetric] sum.case if_True simp_thms)
  then show ?thesis ..
qed

lemma scan_line_literal:
  assumes occ: "occurrences line = i # rest" and len: "length line < 2 ^ 64"
    and lit: "first_literal (drop i line) = Some lit"
  shows "scan_line line names = Inr (names @ [lit])"
proof -
  let ?P = "\<lambda>c. c \<noteq> dquote"
  let ?s = "drop i line"
  have i_lt: "i < length line"
    using occ by (rule occurrences_bound)
  from lit obtain q body where dw: "dropWhile ?P ?s = q # body" and inb: "dquote \<in> set body"
    and lit_eq: "lit = takeWhile ?P body"
    by (auto simp: first_literal_def split: list.splits if_splits)
  have ins: "dquote \<in> set ?s"
  proof (rule ccontr)
    assume "dquote \<notin> set ?s"
    then have "dropWhile ?P ?s = []" by auto
    with dw show False by simp
  qed
  let ?k = "length (takeWhile ?P ?s)"
  let ?e = "length (takeWhile ?P body)"
  have k_lt: "?k < length ?s"
    using ins by (rule takeWhile_shorter)
  have n: "str_find line getData_token = i"
    by (simp add: str_find_occurrences occ)
  have i_npos: "i \<noteq> npos"
    using i_lt len by (simp add: npos_def)
  have sub1: "substr line i npos = Inr ?s"
    using i_lt len by (simp add: substr_def npos_def)
  have start: "find_first_of ?s [dquote] = ?k"
    using ins by (simp add: find_first_of_def find_first_of_at_single)
  have sum1: "(i + ?k + 1) mod 2 ^ 64 = i + ?k + 1"
    using k_lt i_lt len by simp
  have body: "drop (i + ?k + 1) line = body"
    using drop_after_takeWhile [OF dw] by (simp add: add.commute)
  have sub2: "substr line (i + ?k + 1) npos = Inr body"
  proof -
    have "i + ?k + 1 \<le> length line"
      using k_lt i_lt by simp
    moreover have "length body \<le> npos"
      using len body [symmetric] by (simp add: npos_def)
    ultimately show ?thesis
      using body by (simp add: substr_def)
  qed
  have end': "find_first_of body [dquote] = ?e"
    using inb by (simp add: find_first_of_def find_first_of_at_single)
  have sum2: "(?k + 1) mod 2 ^ 64 = ?k + 1"
    using k_lt i_lt len by simp
  have sub3: "substr ?s (?k + 1) ?e = Inr (takeWhile ?P body)"
  proof -
    have "?k + 1 \<le> length ?s"
      using k_lt by simp
    moreover have "drop (?k + 1) ?s = body"
      using drop_after_takeWhile [OF dw] by simp
    moreover have "take ?e body = takeWhile ?P body"
      by (rule takeWhile_eq_take [symmetric])
    ultimately show ?thesis
      by (simp add: substr_def)
  qed
  have "scan_line line names = Inr (names @ [takeWhile ?P body])"
    unfolding scan_line_def Let_def n
    by (simp only: i_npos sub1 start sum1 sub2 end' sum2 sub3 sum.case if_True simp_thms)
  then show ?thesis
    by (simp add: lit_eq)
qed

lemma scan_line_entry:
  assumes len: "length line < 2 ^ 64"
  shows "\<exists>ns. scan_line line names = Inr (names @ ns)
           \<and> list_all2 entry_ok (filter (\<lambda>l. occurrences l \<noteq> []) [line]) ns"
proof (cases "occurrences line")
  case Nil
  then have "scan_line line names = Inr (names @ [])"
    by (simp add: scan_line_def str_find_occurrences)
  with Nil show ?thesis
    by (intro exI [of _ "[]"]) simp
next
  case (Cons i rest)
  show ?thesis
  proof (cases "first_literal (drop i line)")
    case None
    from scan_line_adds_one [OF Cons len] obtain name
      where "scan_line line names = Inr (names @ [name])" ..
    moreover have "entry_ok line name"
      by (simp add: entry_ok_def Cons None)
    ultimately show ?thesis
      using Cons by (intro exI [of _ "[name]"]) simp
  next
    case (Some lit)
    have "scan_line line names = Inr (names @ [lit])"
      using Cons len Some by (rule scan_line_literal)
    moreover have "entry_ok line lit"
      by (simp add: entry_ok_def Cons Some)
    ultimately show ?thesis
      using Cons by (intro exI [of _ "[lit]"]) simp
  qed
qed

lemma lines_of_shorter:
  "line \<in> set (lines_of s) \<Longrightarrow> length line \<le> length s"
proof (induction s rule: lines_of.induct)
  case (1 s)
  show ?case
  proof (cases "s = []")
    case True
    with "1.prems" show ?thesis
      by (simp add: lines_of.simps [of "[]"])
  next
    case False
    let ?l = "takeWhile (\<lambda>c. c \<noteq> newline) s"
    let ?r = "drop 1 (dropWhile (\<lambda>c. c \<noteq> newline) s)"
    have ls: "lines_of s = ?l # lines_of ?r"
      using False by (simp add: lines_of.simps [of s])
    have l: "length ?l \<le> length s"
      by (rule length_takeWhile_le)
    have "length (dropWhile (\<lambda>c. c \<noteq> newline) s) \<le> length s"
      by (rule length_dropWhile_le)
    then have r: "length ?r \<le> length s"
      by simp
    from "1.prems" ls consider "line = ?l" | "line \<in> set (lines_of ?r)"
      by auto
    then show ?thesis
    proof cases
      case 1
      with l show ?thesis by simp
    next
      case 2
      then have "length line \<le> length ?r"
        using "1.IH" [OF False] by blast
      with r show ?thesis by linarith
    qed
  qed
qed

lemma scan_loop_entries:
  assumes "length iss < 2 ^ 64"
  shows "\<exists>ns. scan_loop iss names = Inr (names @ ns) \<and> list_all2 entry_ok (token_lines iss) ns"
  using assms
proof (induction iss arbitrary: names rule: lines_of.induct)
  case (1 s)
  show ?case
  proof (cases "s = []")
    case True
    then have "scan_loop s names = Inr (names @ [])" "token_lines s = []"
      by (simp_all add: scan_loop.simps [of "[]"] getline_def token_lines_def
          lines_of.simps [of "[]"])
    then show ?thesis
      by (intro exI [of _ "[]"]) simp
  next
    case False
    let ?l = "takeWhile (\<lambda>c. c \<noteq> newline) s"
    let ?r = "drop 1 (dropWhile (\<lambda>c. c \<noteq> newline) s)"
    have ls: "lines_of s = ?l # lines_of ?r"
      using False by (simp add: lines_of.simps [of s])
    have gl: "getline s = Some (?l, ?r)"
      using False by (simp add: getline_def)
    have "length ?l \<le> length s"
      by (rule length_takeWhile_le)
    with "1.prems" have ll: "length ?l < 2 ^ 64"
      by linarith
    have "length (dropWhile (\<lambda>c. c \<noteq> newline) s) \<le> length s"
      by (rule length_dropWhile_le)
    then have "length ?r \<le> length s"
      by simp
    with "1.prems" have lr: "length ?r < 2 ^ 64"
      by linarith
    from scan_line_entry [OF ll, of names] obtain ns1
      where s1: "scan_line ?l names = Inr (names @ ns1)"
        and a1: "list_all2 entry_ok (filter (\<lambda>l. occurrences l \<noteq> []) [?l]) ns1"
      by blast
    from "1.IH" [OF False lr, of "names @ ns1"] obtain ns2
      where s2: "scan_loop ?r (names @ ns1) = Inr ((names @ ns1) @ ns2)"
        and a2: "list_all2 entry_ok (token_lines ?r) ns2"
      by blast
    have "scan_loop s names = scan_loop ?r (names @ ns1)"
      by (simp add: scan_loop.simps [of s] gl s1)
    with s2 have "scan_loop s names = Inr (names @ (ns1 @ ns2))"
      by simp
    moreover have "token_lines s = filter (\<lambda>l. occurrences l \<noteq> []) [?l] @ token_lines ?r"
      by (simp add: token_lines_def ls)
    then have "list_all2 entry_ok (token_lines s) (ns1 @ ns2)"
      using a1 a2 by (simp only: list_all2_appendI)
    ultimately show ?thesis
      by blast
  qed
qed

text \<open>The read loop: when it ends and what it has collected, and when it is still running.\<close>

lemma read_loop_ends:
  assumes "\<forall>a \<in> set before. \<not> ends_loop pid a" and "ends_loop pid stop"
  shows "read_loop pid (before @ stop # unread) input
           = Some (input @ concat (map bytes_of before))"
  using assms
proof (induction before arbitrary: input)
  case Nil
  then show ?case
    by (cases stop) (simp_all add: ends_loop_def)
next
  case (Cons a before)
  then show ?case
    by (cases a) (simp_all add: ends_loop_def bytes_of_def)
qed

lemma read_loop_running:
  assumes "\<forall>a \<in> set answers. \<not> ends_loop pid a"
  shows "read_loop pid answers input = None"
  using assms
proof (induction answers arbitrary: input)
  case Nil
  show ?case by simp
next
  case (Cons a answers)
  then show ?case
    by (cases a) (simp_all add: ends_loop_def)
qed



lemma example_lines: "lines_of example_input = [example_line1, example_line2]"
  by (simp add: example_input_def example_line1_def example_line2_def lines_of.simps
      dquote_def newline_def)

lemma example_occurrences:
  "occurrences example_line1 = [9]" "occurrences example_line2 = [0]"
  by (simp_all add: example_line1_def example_line2_def occurrences_def getData_token_def
      dquote_def upt_rec)

lemma example_literals:
  "first_literal (drop 9 example_line1) = Some ''temp''"
  "first_literal (drop 0 example_line2) = Some ''rh''"
  by (simp_all add: example_line1_def example_line2_def first_literal_def dquote_def)


text \<open>
  The claim as stated fails where a line holds two calls: the specification's reading
  yields both names, the code the first only.
\<close>

lemma two_calls_lines: "lines_of two_calls_input = [two_calls_line]"
  by (simp add: two_calls_input_def two_calls_line_def lines_of.simps dquote_def newline_def)

lemma two_calls_occurrences: "occurrences two_calls_line = [0, 23]"
  by (simp add: two_calls_line_def occurrences_def getData_token_def dquote_def upt_rec)

lemma two_calls_literals:
  "first_literal (drop 0 two_calls_line) = Some ''a''"
  "first_literal (drop 23 two_calls_line) = Some ''b''"
  by (simp_all add: two_calls_line_def first_literal_def dquote_def)


end
